theory Spec2Isabelle
  imports Main
begin

section \<open>The GPIO port and the observable effects\<close>

text \<open>
  The program drives a Raspberry Pi through the RPi.GPIO library. The library is the
  environment of the code: a pin has a boolean level, \<open>GPIO.input\<close> reads it (as the
  integer 0 or 1), \<open>GPIO.output\<close> writes it, and \<open>GPIO.setup\<close> of an output pin with
  an initial value writes that value; the level of an input pin is the environment's and
  \<open>GPIO.setup\<close> of an input pin leaves it as it is. The calls of the library are
  taken to succeed: what the library does with a channel that was never set up is not
  part of the model. Everything the code does to its environment is appended to a trace,
  so that "no pin is toggled" or "the pin is never read" are statements about the trace.
  Durations are in milliseconds.
\<close>

type_synonym channel = int

datatype direction = IN_PUD_UP | OUT

text \<open>
  \<open>AddEventDetect\<close> is \<open>GPIO.add_event_detect\<close> for both edges, with the channel
  and the bounce time; \<open>Invoke\<close> is the call of a handler, with its identity and its
  argument.
\<close>

datatype event =
    SetWarnings bool
  | SetMode
  | Setup channel direction "bool option"
  | AddEventDetect channel nat
  | Input channel
  | Output channel bool
  | Sleep nat
  | LogInfo string
  | Invoke nat "string option"

record world =
  pins :: "channel \<Rightarrow> bool"
  trace :: "event list"

definition emit :: "event \<Rightarrow> world \<Rightarrow> world" where
  "emit e w = w\<lparr>trace := trace w @ [e]\<rparr>"

definition GPIO_setwarnings :: "bool \<Rightarrow> world \<Rightarrow> world" where
  "GPIO_setwarnings b w = emit (SetWarnings b) w"

definition GPIO_setmode :: "world \<Rightarrow> world" where
  "GPIO_setmode w = emit SetMode w"

definition GPIO_setup_out :: "channel \<Rightarrow> bool \<Rightarrow> world \<Rightarrow> world" where
  "GPIO_setup_out ch initial w =
     emit (Setup ch OUT (Some initial)) (w\<lparr>pins := (pins w)(ch := initial)\<rparr>)"

definition GPIO_setup_in :: "channel \<Rightarrow> world \<Rightarrow> world" where
  "GPIO_setup_in ch w = emit (Setup ch IN_PUD_UP None) w"

definition GPIO_add_event_detect :: "channel \<Rightarrow> nat \<Rightarrow> world \<Rightarrow> world" where
  "GPIO_add_event_detect ch bouncetime w = emit (AddEventDetect ch bouncetime) w"

text \<open>\<open>GPIO.input\<close> returns 1 for a high pin and 0 for a low one.\<close>

definition level_int :: "bool \<Rightarrow> int" where
  "level_int b = (if b then 1 else 0)"

definition GPIO_input :: "channel \<Rightarrow> world \<Rightarrow> int \<times> world" where
  "GPIO_input ch w = (level_int (pins w ch), emit (Input ch) w)"

definition GPIO_output :: "channel \<Rightarrow> bool \<Rightarrow> world \<Rightarrow> world" where
  "GPIO_output ch v w = emit (Output ch v) (w\<lparr>pins := (pins w)(ch := v)\<rparr>)"

definition time_sleep :: "nat \<Rightarrow> world \<Rightarrow> world" where
  "time_sleep ms w = emit (Sleep ms) w"

definition logging_info :: "string \<Rightarrow> world \<Rightarrow> world" where
  "logging_info msg w = emit (LogInfo msg) w"

text \<open>\<open>SHORT_WAIT = .2\<close> seconds, the source's comment says 200ms.\<close>

definition SHORT_WAIT :: nat where
  "SHORT_WAIT = 200"

section \<open>Configuration and objects\<close>

text \<open>
  The validated configuration of a door or of a sensor (a dictionary in the source).
  Keys read with \<open>config[...]\<close> are fields; keys read with \<open>config.get(...)\<close> may
  be absent, and \<open>open\<close> is optional in the schema.
\<close>

record config =
  cfg_id :: string
  cfg_state :: channel
  cfg_state_mode :: "string option"
  cfg_relay_opening :: channel
  cfg_relay_closing :: channel
  cfg_relay_stop :: "channel option"
  cfg_open :: "channel option"
  cfg_invert_relay :: "bool option"
  cfg_check_state_before_command :: "bool option"

text \<open>\<open>int(config.get('state_mode') == 'normally_closed')\<close>\<close>

definition mode_of :: "config \<Rightarrow> int" where
  "mode_of cfg = (if cfg_state_mode cfg = Some ''normally_closed'' then 1 else 0)"

text \<open>\<open>bool(config.get(key))\<close>: an absent key gives \<open>None\<close>, which is false.\<close>

definition py_bool :: "bool option \<Rightarrow> bool" where
  "py_bool v = (case v of None \<Rightarrow> False | Some b \<Rightarrow> b)"

text \<open>
  A subscriber of the change notifier. The model observes of a handler only that it is
  called (the event \<open>Invoke\<close> with its identity and its argument) and whether the
  call raises.
\<close>

record handler =
  hid :: nat
  raises :: "string option \<Rightarrow> bool"

text \<open>An instance of \<open>MotionSensor\<close>; the fields carry the prefix \<open>sensor\<close>.\<close>

record sensor =
  sensor_state_pin :: channel
  sensor_id :: string
  sensor_mode :: int
  sensor_state_field :: "string option"
  sensor_onStateChange :: "handler list"

text \<open>
  An instance of \<open>GarageDoor\<close> or of its subclass \<open>TwoSwitchGarageDoor\<close>. The
  subclass adds the attribute \<open>open_pin\<close>: it is \<open>None\<close> exactly for an instance of
  the base class. \<open>state_field\<close> is the attribute \<open>_state\<close>, \<open>ident\<close> is
  \<open>id\<close>, and \<open>name_attr\<close> is the attribute \<open>name\<close>, which no constructor sets.
\<close>

record door =
  relay_opening_pin :: channel
  relay_closing_pin :: channel
  relay_stop_pin :: "channel option"
  state_pin :: channel
  ident :: string
  mode :: int
  invert_relay :: bool
  check_state_before_command :: bool
  state_field :: "string option"
  onStateChange :: "handler list"
  open_pin :: "channel option"
  name_attr :: "string option"

section \<open>State resolvers\<close>

definition MotionSensor_state :: "sensor \<Rightarrow> world \<Rightarrow> string \<times> world" where
  "MotionSensor_state self w =
     (let (st, w1) = GPIO_input (sensor_state_pin self) w
      in if st = sensor_mode self then (''nothing'', w1) else (''detection'', w1))"

definition GarageDoor_state :: "door \<Rightarrow> world \<Rightarrow> string \<times> world" where
  "GarageDoor_state self w =
     (let (st, w1) = GPIO_input (state_pin self) w
      in if st = mode self then (''closed'', w1) else (''open'', w1))"

text \<open>
  The property \<open>TwoSwitchGarageDoor.state\<close>: it reads the closed switch, then the open
  switch, assigns \<open>_state\<close> in the first branch that matches and returns \<open>_state\<close>.
  It returns the value, the object and the world.
\<close>

definition TwoSwitchGarageDoor_state ::
    "door \<Rightarrow> channel \<Rightarrow> world \<Rightarrow> string option \<times> door \<times> world" where
  "TwoSwitchGarageDoor_state self op w =
     (let (a, w1) = GPIO_input (state_pin self) w;
          closed_state = (a = mode self);
          (b, w2) = GPIO_input op w1;
          open_state = (b = mode self);
          self' =
            (if closed_state then self\<lparr>state_field := Some ''closed''\<rparr>
             else if open_state then self\<lparr>state_field := Some ''open''\<rparr>
             else if state_field self = Some ''closed'' then self\<lparr>state_field := Some ''opening''\<rparr>
             else if state_field self = Some ''open'' then self\<lparr>state_field := Some ''closing''\<rparr>
             else self)
      in (state_field self', self', w2))"

text \<open>\<open>self.state\<close>: the property of the object's class.\<close>

definition state :: "door \<Rightarrow> world \<Rightarrow> string option \<times> door \<times> world" where
  "state self w =
     (case open_pin self of
        None \<Rightarrow> (let (s, w1) = GarageDoor_state self w in (Some s, self, w1))
      | Some op \<Rightarrow> TwoSwitchGarageDoor_state self op w)"

text \<open>
  What the resolvers compare: a sensor is asserted when the reading of its pin equals
  the mode of the object.
\<close>

definition asserted :: "door \<Rightarrow> (channel \<Rightarrow> bool) \<Rightarrow> channel \<Rightarrow> bool" where
  "asserted self lv ch = (level_int (lv ch) = mode self)"

section \<open>Actuation\<close>

definition GarageDoor_press_open :: "door \<Rightarrow> world \<Rightarrow> world" where
  "GarageDoor_press_open self w =
     (let w1 = GPIO_output (relay_opening_pin self) (\<not> invert_relay self) w;
          w2 = time_sleep SHORT_WAIT w1
      in GPIO_output (relay_opening_pin self) (invert_relay self) w2)"

definition GarageDoor_press_close :: "door \<Rightarrow> world \<Rightarrow> world" where
  "GarageDoor_press_close self w =
     (let w1 = GPIO_output (relay_closing_pin self) (\<not> invert_relay self) w;
          w2 = time_sleep SHORT_WAIT w1
      in GPIO_output (relay_closing_pin self) (invert_relay self) w2)"

definition GarageDoor_press_stop :: "door \<Rightarrow> world \<Rightarrow> world" where
  "GarageDoor_press_stop self w =
     (case relay_stop_pin self of
        Some p \<Rightarrow>
          (let w1 = GPIO_output p (\<not> invert_relay self) w;
               w2 = time_sleep SHORT_WAIT w1
           in GPIO_output p (invert_relay self) w2)
      | None \<Rightarrow> logging_info ''STOP not setup'' w)"

text \<open>
  \<open>not self.check_state_before_command or self.state == 'closed'\<close>: the state is
  read only when the flag is set.
\<close>

definition GarageDoor_open :: "door \<Rightarrow> world \<Rightarrow> door \<times> world" where
  "GarageDoor_open self w =
     (if \<not> check_state_before_command self then (self, GarageDoor_press_open self w)
      else
        (let (s, self', w1) = state self w
         in if s = Some ''closed'' then (self', GarageDoor_press_open self' w1)
            else (self', w1)))"

definition GarageDoor_close :: "door \<Rightarrow> world \<Rightarrow> door \<times> world" where
  "GarageDoor_close self w =
     (if \<not> check_state_before_command self then (self, GarageDoor_press_close self w)
      else
        (let (s, self', w1) = state self w
         in if s = Some ''open'' then (self', GarageDoor_press_close self' w1)
            else (self', w1)))"

definition GarageDoor_stop :: "door \<Rightarrow> world \<Rightarrow> world" where
  "GarageDoor_stop self w = GarageDoor_press_stop self w"

section \<open>Construction\<close>

definition MotionSensor_init :: "config \<Rightarrow> world \<Rightarrow> sensor \<times> world" where
  "MotionSensor_init cfg w =
     (let self = \<lparr>sensor_state_pin = cfg_state cfg, sensor_id = cfg_id cfg,
                  sensor_mode = mode_of cfg, sensor_state_field = None,
                  sensor_onStateChange = []\<rparr>;
          w1 = GPIO_setwarnings False w;
          w2 = GPIO_setmode w1;
          w3 = GPIO_setup_in (sensor_state_pin self) w2;
          w4 = GPIO_add_event_detect (sensor_state_pin self) 300 w3
      in (self, w4))"

definition GarageDoor_init :: "config \<Rightarrow> world \<Rightarrow> door \<times> world" where
  "GarageDoor_init cfg w =
     (let self = \<lparr>relay_opening_pin = cfg_relay_opening cfg,
                  relay_closing_pin = cfg_relay_closing cfg,
                  relay_stop_pin = cfg_relay_stop cfg,
                  state_pin = cfg_state cfg,
                  ident = cfg_id cfg,
                  mode = mode_of cfg,
                  invert_relay = py_bool (cfg_invert_relay cfg),
                  check_state_before_command = py_bool (cfg_check_state_before_command cfg),
                  state_field = None,
                  onStateChange = [],
                  open_pin = None,
                  name_attr = None\<rparr>;
          w1 = GPIO_setwarnings False w;
          w2 = GPIO_setmode w1;
          w3 = GPIO_setup_out (relay_opening_pin self) (invert_relay self) w2;
          w4 = GPIO_setup_out (relay_closing_pin self) (invert_relay self) w3;
          w5 = (case relay_stop_pin self of
                  Some p \<Rightarrow> GPIO_setup_out p (invert_relay self) w4
                | None \<Rightarrow> w4);
          w6 = GPIO_setup_in (state_pin self) w5;
          w7 = GPIO_add_event_detect (state_pin self) 300 w6
      in (self, w7))"

text \<open>
  The subclass constructor reads \<open>config['open']\<close>; without an open pin the
  construction raises (the result \<open>None\<close>), and the program builds a
  \<open>TwoSwitchGarageDoor\<close> only for a configuration that has one.
\<close>

definition TwoSwitchGarageDoor_init :: "config \<Rightarrow> world \<Rightarrow> (door \<times> world) option" where
  "TwoSwitchGarageDoor_init cfg w =
     (let (self, w1) = GarageDoor_init cfg w
      in case cfg_open cfg of
           None \<Rightarrow> None
         | Some op \<Rightarrow>
             (let w2 = GPIO_setup_in op w1;
                  w3 = GPIO_add_event_detect op 300 w2
              in Some (self\<lparr>open_pin := Some op\<rparr>, w3)))"

section \<open>The change notifier\<close>

datatype outcome = Returned | Raised

text \<open>
  Modelled from the spec: the class \<open>EventHook\<close> of \<open>lib/eventhook.py\<close>, which is
  imported by \<open>lib/garage.py\<close> and is not among the sources. The spec says of it:
  \<open>subscribe(handler)\<close> appends to the subscriber list, and \<open>fire\<close> invokes every
  registered handler in registration order, on the calling thread, with no isolation:
  a handler that raises ends the delivery, and the exception reaches the caller.
\<close>

definition EventHook_addHandler :: "handler list \<Rightarrow> handler \<Rightarrow> handler list" where
  "EventHook_addHandler hs h = hs @ [h]"

text \<open>
  Modelled from the spec: \<open>EventHook.fire\<close> of the same missing file. It returns
  whether the delivery completed or a handler raised, and the world with the calls made.
\<close>

fun EventHook_fire :: "handler list \<Rightarrow> string option \<Rightarrow> world \<Rightarrow> outcome \<times> world" where
  "EventHook_fire [] v w = (Returned, w)"
| "EventHook_fire (h # hs) v w =
     (let w1 = emit (Invoke (hid h) v) w
      in if raises h v then (Raised, w1) else EventHook_fire hs v w1)"

section \<open>Edge callbacks\<close>

definition MotionSensor_stateChanged :: "sensor \<Rightarrow> channel \<Rightarrow> world \<Rightarrow> outcome \<times> world" where
  "MotionSensor_stateChanged self ch w =
     (if ch = sensor_state_pin self then
        (let w1 = time_sleep SHORT_WAIT w;
             (s, w2) = MotionSensor_state self w1
         in EventHook_fire (sensor_onStateChange self) (Some s) w2)
      else (Returned, w))"

definition GarageDoor_stateChanged :: "door \<Rightarrow> channel \<Rightarrow> world \<Rightarrow> outcome \<times> door \<times> world" where
  "GarageDoor_stateChanged self ch w =
     (if ch = state_pin self then
        (let w1 = time_sleep SHORT_WAIT w;
             (s, self', w2) = state self w1;
             (r, w3) = EventHook_fire (onStateChange self') s w2
         in (r, self', w3))
      else (Returned, self, w))"

definition TwoSwitchGarageDoor_stateChanged ::
    "door \<Rightarrow> channel \<Rightarrow> channel \<Rightarrow> world \<Rightarrow> outcome \<times> door \<times> world" where
  "TwoSwitchGarageDoor_stateChanged self op ch w =
     (if ch = state_pin self \<or> ch = op then
        (let w1 = time_sleep SHORT_WAIT w;
             (s, self', w2) = state self w1;
             (r, w3) = EventHook_fire (onStateChange self') s w2
         in (r, self', w3))
      else (Returned, self, w))"

text \<open>
  The callbacks the constructors register with \<open>GPIO.add_event_detect\<close>: on the state
  pin \<open>self.__stateChanged\<close> written in \<open>GarageDoor\<close>, which is the method of that
  class also for an instance of the subclass (the name is private to the class), and on
  the open pin the method of \<open>TwoSwitchGarageDoor\<close>. The library calls the callback of
  the pin with the channel.
\<close>

definition edge_callback :: "door \<Rightarrow> channel \<Rightarrow> world \<Rightarrow> outcome \<times> door \<times> world" where
  "edge_callback self ch w =
     (if ch = state_pin self then GarageDoor_stateChanged self ch w
      else case open_pin self of
             None \<Rightarrow> (Returned, self, w)
           | Some op \<Rightarrow>
               if ch = op then TwoSwitchGarageDoor_stateChanged self op ch w
               else (Returned, self, w))"

text \<open>
  A run of settled edges: each is the channel the edge is on and the pin levels the
  callback finds. Each callback is a call of its own.
\<close>

fun settled_edges :: "door \<Rightarrow> world \<Rightarrow> (channel \<times> (channel \<Rightarrow> bool)) list \<Rightarrow> door \<times> world" where
  "settled_edges self w [] = (self, w)"
| "settled_edges self w ((ch, lv) # es) =
     (let (r, self', w1) = edge_callback self ch (w\<lparr>pins := lv\<rparr>)
      in settled_edges self' w1 es)"

text \<open>A run of observations: the state property is read once under each pin levels.\<close>

fun observe :: "door \<Rightarrow> world \<Rightarrow> (channel \<Rightarrow> bool) list \<Rightarrow> string option list" where
  "observe self w [] = []"
| "observe self w (lv # lvs) =
     (let (s, self', w1) = state self (w\<lparr>pins := lv\<rparr>)
      in s # observe self' w1 lvs)"

text \<open>The calls of handlers in a trace, and the arguments one handler was called with.\<close>

fun invocations :: "event list \<Rightarrow> (nat \<times> string option) list" where
  "invocations [] = []"
| "invocations (Invoke i v # tr) = (i, v) # invocations tr"
| "invocations (e # tr) = invocations tr"

definition delivered :: "nat \<Rightarrow> event list \<Rightarrow> string option list" where
  "delivered i tr = map snd (filter (\<lambda>c. fst c = i) (invocations tr))"

text \<open>The pin writes and the pin reads in a trace.\<close>

fun outputs :: "event list \<Rightarrow> (channel \<times> bool) list" where
  "outputs [] = []"
| "outputs (Output ch v # tr) = (ch, v) # outputs tr"
| "outputs (e # tr) = outputs tr"

fun inputs :: "event list \<Rightarrow> channel list" where
  "inputs [] = []"
| "inputs (Input ch # tr) = ch # inputs tr"
| "inputs (e # tr) = inputs tr"

section \<open>The command dispatcher\<close>

text \<open>
  \<open>execute_command\<close> of \<open>main.py\<close>. The door's \<open>name\<close> is read under
  \<open>try\<close>; when the attribute is missing the \<open>id\<close> is used.
\<close>

definition execute_command :: "door \<Rightarrow> string \<Rightarrow> world \<Rightarrow> door \<times> world" where
  "execute_command door command w =
     (let doorName = (case name_attr door of Some n \<Rightarrow> n | None \<Rightarrow> ident door);
          w1 = logging_info (''Executing command '' @ command @ '' for door '' @ doorName) w
      in if command = ''OPEN'' then GarageDoor_open door w1
         else if command = ''CLOSE'' then GarageDoor_close door w1
         else if command = ''STOP'' then (door, GarageDoor_stop door w1)
         else (door, logging_info (''Invalid command: '' @ command) w1))"


section \<open>Notions of the specification\<close>

text \<open>
  The table of the specification for the single-sensor resolvers, indexed by the mode
  (1 for normally closed wiring, 0 for normally open) and by the level of the pin:
  \<open>same\<close> where the reading equals the mode, \<open>other\<close> elsewhere.
\<close>

definition expectedTable :: "string \<Rightarrow> string \<Rightarrow> int \<Rightarrow> bool \<Rightarrow> string" where
  "expectedTable same other m r =
     (if m = 1 \<and> r then same
      else if m = 1 \<and> \<not> r then other
      else if m = 0 \<and> r then other
      else if m = 0 \<and> \<not> r then same
      else other)"

text \<open>The pins the state property of a door reads, in the order it reads them.\<close>

definition sensor_pins :: "door \<Rightarrow> channel list" where
  "sensor_pins self = state_pin self # (case open_pin self of None \<Rightarrow> [] | Some op \<Rightarrow> [op])"

text \<open>The relay pins of a door, and all of them being at the idle level.\<close>

definition relay_pins :: "door \<Rightarrow> channel list" where
  "relay_pins self =
     relay_opening_pin self # relay_closing_pin self #
     (case relay_stop_pin self of None \<Rightarrow> [] | Some p \<Rightarrow> [p])"

definition relays_idle :: "door \<Rightarrow> (channel \<Rightarrow> bool) \<Rightarrow> bool" where
  "relays_idle self lv = list_all (\<lambda>p. lv p = invert_relay self) (relay_pins self)"

text \<open>The events of one relay pulse on a pin.\<close>

definition pulse :: "door \<Rightarrow> channel \<Rightarrow> event list" where
  "pulse self p = [Output p (\<not> invert_relay self), Sleep SHORT_WAIT, Output p (invert_relay self)]"

section \<open>Example objects\<close>

definition example_config :: config where
  "example_config =
     \<lparr>cfg_id = ''garage'', cfg_state = 17, cfg_state_mode = Some ''normally_closed'',
      cfg_relay_opening = 23, cfg_relay_closing = 24, cfg_relay_stop = Some 25,
      cfg_open = Some 27, cfg_invert_relay = Some False,
      cfg_check_state_before_command = Some True\<rparr>"

definition low_world :: world where
  "low_world = \<lparr>pins = (\<lambda>ch. False), trace = []\<rparr>"

definition single_door :: door where
  "single_door = fst (GarageDoor_init example_config low_world)"

definition dual_door :: door where
  "dual_door = fst (the (TwoSwitchGarageDoor_init example_config low_world))"

definition example_handler :: "nat \<Rightarrow> handler" where
  "example_handler i = \<lparr>hid = i, raises = (\<lambda>v. False)\<rparr>"

definition notified_door :: door where
  "notified_door =
     dual_door\<lparr>onStateChange :=
       EventHook_addHandler (EventHook_addHandler [] (example_handler 0)) (example_handler 1)\<rparr>"

section \<open>Basic facts\<close>

subsection \<open>The example objects\<close>

lemma single_door_eq:
  "single_door = \<lparr>relay_opening_pin = 23, relay_closing_pin = 24, relay_stop_pin = Some 25,
      state_pin = 17, ident = ''garage'', mode = 1, invert_relay = False,
      check_state_before_command = True, state_field = None, onStateChange = [],
      open_pin = None, name_attr = None\<rparr>"
  by (simp add: single_door_def GarageDoor_init_def example_config_def
      mode_of_def py_bool_def Let_def)

lemma dual_door_eq:
  "dual_door = \<lparr>relay_opening_pin = 23, relay_closing_pin = 24, relay_stop_pin = Some 25,
      state_pin = 17, ident = ''garage'', mode = 1, invert_relay = False,
      check_state_before_command = True, state_field = None, onStateChange = [],
      open_pin = Some 27, name_attr = None\<rparr>"
  by (simp add: dual_door_def TwoSwitchGarageDoor_init_def GarageDoor_init_def example_config_def
      mode_of_def py_bool_def Let_def)

lemma single_door_fields:
  "relay_opening_pin single_door = 23" "relay_closing_pin single_door = 24"
  "relay_stop_pin single_door = Some 25" "state_pin single_door = 17" "mode single_door = 1"
  "invert_relay single_door = False" "check_state_before_command single_door = True"
  "open_pin single_door = None" "state_field single_door = None"
  "name_attr single_door = None" "ident single_door = ''garage''"
  by (simp_all add: single_door_eq)

lemma dual_door_fields:
  "relay_opening_pin dual_door = 23" "relay_closing_pin dual_door = 24"
  "relay_stop_pin dual_door = Some 25" "state_pin dual_door = 17" "mode dual_door = 1"
  "invert_relay dual_door = False" "check_state_before_command dual_door = True"
  "open_pin dual_door = Some 27" "state_field dual_door = None"
  "name_attr dual_door = None" "ident dual_door = ''garage''"
  by (simp_all add: dual_door_eq)

lemma notified_door_fields:
  "state_pin notified_door = 17" "mode notified_door = 1" "open_pin notified_door = Some 27"
  "state_field notified_door = None"
  "onStateChange notified_door = [example_handler 0, example_handler 1]"
  by (simp_all add: notified_door_def dual_door_fields EventHook_addHandler_def)

lemma low_world_fields: "pins low_world = (\<lambda>ch. False)" "trace low_world = []"
  by (simp_all add: low_world_def)

subsection \<open>Projections of a trace\<close>

lemma outputs_append: "outputs (xs @ ys) = outputs xs @ outputs ys"
  by (induction xs rule: outputs.induct) simp_all

lemma inputs_append: "inputs (xs @ ys) = inputs xs @ inputs ys"
  by (induction xs rule: inputs.induct) simp_all

lemma invocations_append: "invocations (xs @ ys) = invocations xs @ invocations ys"
  by (induction xs rule: invocations.induct) simp_all

lemma outputs_map_Input: "outputs (map Input chs) = []"
  by (induction chs) simp_all

lemma invocations_map_Input: "invocations (map Input chs) = []"
  by (induction chs) simp_all

lemma invocations_map_Invoke:
  "invocations (map (\<lambda>h. Invoke (hid h) v) hs) = map (\<lambda>h. (hid h, v)) hs"
  by (induction hs) simp_all

subsection \<open>The state property\<close>

lemma state_triple: "(fst (state d w), fst (snd (state d w)), snd (snd (state d w))) = state d w"
  by simp

lemma GarageDoor_state_eq:
  "GarageDoor_state self w =
     (if asserted self (pins w) (state_pin self) then ''closed'' else ''open'',
      emit (Input (state_pin self)) w)"
  by (simp add: GarageDoor_state_def GPIO_input_def asserted_def)

lemma MotionSensor_state_eq:
  "MotionSensor_state self w =
     (if level_int (pins w (sensor_state_pin self)) = sensor_mode self
      then ''nothing'' else ''detection'',
      emit (Input (sensor_state_pin self)) w)"
  by (simp add: MotionSensor_state_def GPIO_input_def)

lemma TwoSwitchGarageDoor_state_eq:
  "TwoSwitchGarageDoor_state self op w =
     (let s = (if asserted self (pins w) (state_pin self) then Some ''closed''
               else if asserted self (pins w) op then Some ''open''
               else if state_field self = Some ''closed'' then Some ''opening''
               else if state_field self = Some ''open'' then Some ''closing''
               else state_field self)
      in (s, self\<lparr>state_field := s\<rparr>, emit (Input op) (emit (Input (state_pin self)) w)))"
  by (simp add: TwoSwitchGarageDoor_state_def GPIO_input_def asserted_def emit_def Let_def)

lemma state_two_switch:
  "open_pin self = Some op \<Longrightarrow>
   fst (state self w) =
     (if asserted self (pins w) (state_pin self) then Some ''closed''
      else if asserted self (pins w) op then Some ''open''
      else if state_field self = Some ''closed'' then Some ''opening''
      else if state_field self = Some ''open'' then Some ''closing''
      else state_field self)"
  by (simp add: state_def TwoSwitchGarageDoor_state_eq Let_def)

lemma state_world:
  "snd (snd (state self w)) = w\<lparr>trace := trace w @ map Input (sensor_pins self)\<rparr>"
  by (simp add: state_def GarageDoor_state_eq TwoSwitchGarageDoor_state_eq sensor_pins_def
      emit_def Let_def split: option.splits)

lemma state_door:
  "fst (snd (state self w)) =
     (case open_pin self of None \<Rightarrow> self | Some op \<Rightarrow> self\<lparr>state_field := fst (state self w)\<rparr>)"
  by (simp add: state_def GarageDoor_state_eq TwoSwitchGarageDoor_state_eq Let_def
      split: option.splits)

lemma state_door_config:
  "relay_opening_pin (fst (snd (state self w))) = relay_opening_pin self"
  "relay_closing_pin (fst (snd (state self w))) = relay_closing_pin self"
  "relay_stop_pin (fst (snd (state self w))) = relay_stop_pin self"
  "invert_relay (fst (snd (state self w))) = invert_relay self"
  "state_pin (fst (snd (state self w))) = state_pin self"
  "open_pin (fst (snd (state self w))) = open_pin self"
  "mode (fst (snd (state self w))) = mode self"
  "onStateChange (fst (snd (state self w))) = onStateChange self"
  "check_state_before_command (fst (snd (state self w))) = check_state_before_command self"
  by (simp_all add: state_door split: option.splits)

lemma state_field_after:
  "open_pin self = Some op \<Longrightarrow> state_field (fst (snd (state self w))) = fst (state self w)"
  by (simp add: state_door)

lemma asserted_state: "asserted (fst (snd (state self w))) = asserted self"
  by (simp add: asserted_def state_door_config fun_eq_iff)

text \<open>The value and the object a read of the state gives depend on the pin levels only.\<close>

lemma state_pins_only:
  "pins w = pins w2 \<Longrightarrow> fst (state self w) = fst (state self w2)"
  by (simp add: state_def GarageDoor_state_eq TwoSwitchGarageDoor_state_eq Let_def
      split: option.splits)

lemma state_door_pins_only:
  "pins w = pins w2 \<Longrightarrow> fst (snd (state self w)) = fst (snd (state self w2))"
  by (simp add: state_door state_pins_only [of w w2] split: option.splits)

subsection \<open>Runs of observations\<close>

lemma observe_Cons:
  "observe self w (lv # lvs) =
     fst (state self (w\<lparr>pins := lv\<rparr>)) #
     observe (fst (snd (state self (w\<lparr>pins := lv\<rparr>))))
       (snd (snd (state self (w\<lparr>pins := lv\<rparr>)))) lvs"
  by (simp add: Let_def split_def)

lemma length_observe: "length (observe self w lvs) = length lvs"
  by (induction lvs arbitrary: self w) (simp_all add: observe_Cons del: observe.simps(2))

lemma observe_any_world: "observe self w lvs = observe self w2 lvs"
proof (induction lvs arbitrary: self w w2)
  case Nil
  show ?case by simp
next
  case (Cons lv lvs)
  have a: "fst (state self (w\<lparr>pins := lv\<rparr>)) = fst (state self (w2\<lparr>pins := lv\<rparr>))"
    by (rule state_pins_only) simp
  have b: "fst (snd (state self (w\<lparr>pins := lv\<rparr>))) = fst (snd (state self (w2\<lparr>pins := lv\<rparr>)))"
    by (rule state_door_pins_only) simp
  have c: "observe (fst (snd (state self (w2\<lparr>pins := lv\<rparr>))))
              (snd (snd (state self (w\<lparr>pins := lv\<rparr>)))) lvs =
           observe (fst (snd (state self (w2\<lparr>pins := lv\<rparr>))))
              (snd (snd (state self (w2\<lparr>pins := lv\<rparr>)))) lvs"
    by (rule Cons.IH)
  show ?case
    unfolding observe_Cons a b c by (rule refl)
qed

text \<open>
  One step of a run with no switch asserted: the resolved state moves from \<open>closed\<close> to
  \<open>opening\<close>, from \<open>open\<close> to \<open>closing\<close>, and else stays.
\<close>

lemma observe_step:
  assumes "open_pin self = Some op"
    and "Suc i < length lvs"
    and "\<not> asserted self (lvs ! Suc i) (state_pin self)"
    and "\<not> asserted self (lvs ! Suc i) op"
  shows "observe self w lvs ! Suc i =
     (if observe self w lvs ! i = Some ''closed'' then Some ''opening''
      else if observe self w lvs ! i = Some ''open'' then Some ''closing''
      else observe self w lvs ! i)"
  using assms
proof (induction i arbitrary: self w lvs)
  case 0
  then obtain lv0 lv1 rest where lvs: "lvs = lv0 # lv1 # rest"
    by (cases lvs; cases "tl lvs") auto
  let ?d = "fst (snd (state self (w\<lparr>pins := lv0\<rparr>)))"
  have "open_pin ?d = Some op" using 0 by (simp add: state_door_config)
  with 0 show ?case
    by (simp add: lvs observe_Cons state_two_switch [of ?d op] state_field_after [of self op]
        asserted_state state_door_config del: observe.simps(2))
next
  case (Suc i)
  then obtain lv0 rest where lvs: "lvs = lv0 # rest"
    by (cases lvs) auto
  let ?d = "fst (snd (state self (w\<lparr>pins := lv0\<rparr>)))"
  let ?w = "snd (snd (state self (w\<lparr>pins := lv0\<rparr>)))"
  have "open_pin ?d = Some op" using Suc.prems by (simp add: state_door_config)
  moreover have "Suc i < length rest" using Suc.prems by (simp add: lvs)
  moreover have "\<not> asserted ?d (rest ! Suc i) (state_pin ?d)" "\<not> asserted ?d (rest ! Suc i) op"
    using Suc.prems by (simp_all add: lvs asserted_state state_door_config)
  ultimately have "observe ?d ?w rest ! Suc i =
     (if observe ?d ?w rest ! i = Some ''closed'' then Some ''opening''
      else if observe ?d ?w rest ! i = Some ''open'' then Some ''closing''
      else observe ?d ?w rest ! i)"
    by (rule Suc.IH)
  then show ?case
    by (simp add: lvs observe_Cons del: observe.simps(2))
qed

subsection \<open>Relay pulses\<close>

lemma press_open_eq:
  "GarageDoor_press_open self w =
     w\<lparr>pins := (pins w)(relay_opening_pin self := invert_relay self),
       trace := trace w @ pulse self (relay_opening_pin self)\<rparr>"
  by (simp add: GarageDoor_press_open_def GPIO_output_def time_sleep_def emit_def pulse_def Let_def)

lemma press_close_eq:
  "GarageDoor_press_close self w =
     w\<lparr>pins := (pins w)(relay_closing_pin self := invert_relay self),
       trace := trace w @ pulse self (relay_closing_pin self)\<rparr>"
  by (simp add: GarageDoor_press_close_def GPIO_output_def time_sleep_def emit_def pulse_def Let_def)

lemma press_stop_Some:
  "relay_stop_pin self = Some p \<Longrightarrow>
   GarageDoor_press_stop self w =
     w\<lparr>pins := (pins w)(p := invert_relay self), trace := trace w @ pulse self p\<rparr>"
  by (simp add: GarageDoor_press_stop_def GPIO_output_def time_sleep_def emit_def pulse_def Let_def)

lemma press_stop_None:
  "relay_stop_pin self = None \<Longrightarrow>
   GarageDoor_press_stop self w = w\<lparr>trace := trace w @ [LogInfo ''STOP not setup'']\<rparr>"
  by (simp add: GarageDoor_press_stop_def logging_info_def emit_def)

lemma open_eq:
  "GarageDoor_open self w =
     (if \<not> check_state_before_command self then (self, GarageDoor_press_open self w)
      else if fst (state self w) = Some ''closed''
      then (fst (snd (state self w)),
            GarageDoor_press_open (fst (snd (state self w))) (snd (snd (state self w))))
      else (fst (snd (state self w)), snd (snd (state self w))))"
  by (simp add: GarageDoor_open_def Let_def split: prod.splits)

lemma close_eq:
  "GarageDoor_close self w =
     (if \<not> check_state_before_command self then (self, GarageDoor_press_close self w)
      else if fst (state self w) = Some ''open''
      then (fst (snd (state self w)),
            GarageDoor_press_close (fst (snd (state self w))) (snd (snd (state self w))))
      else (fst (snd (state self w)), snd (snd (state self w))))"
  by (simp add: GarageDoor_close_def Let_def split: prod.splits)

lemma relays_idle_upd:
  "relays_idle self lv \<Longrightarrow> relays_idle self (lv(p := invert_relay self))"
  by (simp add: relays_idle_def list_all_iff)

subsection \<open>Construction\<close>

lemma init_door:
  "fst (GarageDoor_init cfg w) =
     \<lparr>relay_opening_pin = cfg_relay_opening cfg, relay_closing_pin = cfg_relay_closing cfg,
      relay_stop_pin = cfg_relay_stop cfg, state_pin = cfg_state cfg, ident = cfg_id cfg,
      mode = mode_of cfg, invert_relay = py_bool (cfg_invert_relay cfg),
      check_state_before_command = py_bool (cfg_check_state_before_command cfg),
      state_field = None, onStateChange = [], open_pin = None, name_attr = None\<rparr>"
  by (simp add: GarageDoor_init_def Let_def)

lemma init_pins:
  "pins (snd (GarageDoor_init cfg w)) =
     (case cfg_relay_stop cfg of
        None \<Rightarrow> (pins w)(cfg_relay_opening cfg := py_bool (cfg_invert_relay cfg),
                          cfg_relay_closing cfg := py_bool (cfg_invert_relay cfg))
      | Some p \<Rightarrow> (pins w)(cfg_relay_opening cfg := py_bool (cfg_invert_relay cfg),
                            cfg_relay_closing cfg := py_bool (cfg_invert_relay cfg),
                            p := py_bool (cfg_invert_relay cfg)))"
  by (simp add: GarageDoor_init_def Let_def GPIO_setup_out_def GPIO_setup_in_def
      GPIO_add_event_detect_def GPIO_setwarnings_def GPIO_setmode_def emit_def
      split: option.splits)

lemma init_trace:
  "trace (snd (GarageDoor_init cfg w)) =
     trace w @ [SetWarnings False, SetMode,
       Setup (cfg_relay_opening cfg) OUT (Some (py_bool (cfg_invert_relay cfg))),
       Setup (cfg_relay_closing cfg) OUT (Some (py_bool (cfg_invert_relay cfg)))]
     @ (case cfg_relay_stop cfg of None \<Rightarrow> []
        | Some p \<Rightarrow> [Setup p OUT (Some (py_bool (cfg_invert_relay cfg)))])
     @ [Setup (cfg_state cfg) IN_PUD_UP None, AddEventDetect (cfg_state cfg) 300]"
  by (simp add: GarageDoor_init_def Let_def GPIO_setup_out_def GPIO_setup_in_def
      GPIO_add_event_detect_def GPIO_setwarnings_def GPIO_setmode_def emit_def
      split: option.splits)

lemma init_relays_idle:
  "relays_idle (fst (GarageDoor_init cfg w)) (pins (snd (GarageDoor_init cfg w)))"
  by (simp add: init_door init_pins relays_idle_def relay_pins_def split: option.splits)

lemma two_switch_init_relays_idle:
  "TwoSwitchGarageDoor_init cfg w = Some (d, w1) \<Longrightarrow> relays_idle d (pins w1)"
  using init_relays_idle [of cfg w]
  by (auto simp: TwoSwitchGarageDoor_init_def Let_def GPIO_setup_in_def
      GPIO_add_event_detect_def emit_def relays_idle_def relay_pins_def
      split: prod.splits option.splits)

subsection \<open>The notifier and the edge callbacks\<close>

lemma fire_no_raise:
  "\<forall>h \<in> set hs. \<not> raises h v \<Longrightarrow>
   EventHook_fire hs v w = (Returned, w\<lparr>trace := trace w @ map (\<lambda>h. Invoke (hid h) v) hs\<rparr>)"
  by (induction hs arbitrary: w) (simp_all add: emit_def Let_def)

lemma stateChanged_eq:
  "GarageDoor_stateChanged self (state_pin self) w =
     (let w1 = time_sleep SHORT_WAIT w;
          r = EventHook_fire (onStateChange self) (fst (state self w1)) (snd (snd (state self w1)))
      in (fst r, fst (snd (state self w1)), snd r))"
  by (simp add: GarageDoor_stateChanged_def Let_def split_def state_door_config)

lemma two_switch_stateChanged_eq:
  "ch = state_pin self \<or> ch = op \<Longrightarrow>
   TwoSwitchGarageDoor_stateChanged self op ch w =
     (let w1 = time_sleep SHORT_WAIT w;
          r = EventHook_fire (onStateChange self) (fst (state self w1)) (snd (snd (state self w1)))
      in (fst r, fst (snd (state self w1)), snd r))"
  by (simp add: TwoSwitchGarageDoor_stateChanged_def Let_def split_def state_door_config)

lemma edge_callback_watched:
  assumes "ch \<in> set (sensor_pins self)"
  shows "edge_callback self ch w =
     (let w1 = time_sleep SHORT_WAIT w;
          r = EventHook_fire (onStateChange self) (fst (state self w1)) (snd (snd (state self w1)))
      in (fst r, fst (snd (state self w1)), snd r))"
  using assms
  by (auto simp: edge_callback_def sensor_pins_def stateChanged_eq two_switch_stateChanged_eq
      split: option.splits)

text \<open>
  A settled edge on a watched pin, with handlers that return: the callback sleeps for the
  settle delay, then reads the sensor pins, then calls every handler, in the order of
  registration, with the state it has just resolved.
\<close>

lemma edge_callback_no_raise:
  assumes "ch \<in> set (sensor_pins self)"
    and "\<forall>h \<in> set (onStateChange self). \<forall>v. \<not> raises h v"
  shows "edge_callback self ch w =
     (Returned, fst (snd (state self w)),
      w\<lparr>trace := trace w @ Sleep SHORT_WAIT # map Input (sensor_pins self)
                 @ map (\<lambda>h. Invoke (hid h) (fst (state self w))) (onStateChange self)\<rparr>)"
proof -
  let ?w1 = "w\<lparr>trace := trace w @ [Sleep SHORT_WAIT]\<rparr>"
  let ?w2 = "w\<lparr>trace := trace w @ Sleep SHORT_WAIT # map Input (sensor_pins self)\<rparr>"
  have w1: "time_sleep SHORT_WAIT w = ?w1"
    by (simp add: time_sleep_def emit_def)
  have v: "fst (state self ?w1) = fst (state self w)"
    by (rule state_pins_only) simp
  have d: "fst (snd (state self ?w1)) = fst (snd (state self w))"
    by (rule state_door_pins_only) simp
  have w2: "snd (snd (state self ?w1)) = ?w2"
    by (simp add: state_world)
  have f: "EventHook_fire (onStateChange self) (fst (state self w)) ?w2 =
      (Returned, ?w2\<lparr>trace := trace ?w2 @
         map (\<lambda>h. Invoke (hid h) (fst (state self w))) (onStateChange self)\<rparr>)"
    using assms(2) by (intro fire_no_raise) blast
  show ?thesis
    unfolding edge_callback_watched [OF assms(1)] w1 Let_def v d w2 f by simp
qed

lemma settled_edges_invocations:
  assumes "\<forall>e \<in> set es. fst e \<in> set (sensor_pins self)"
    and "\<forall>h \<in> set (onStateChange self). \<forall>v. \<not> raises h v"
  shows "invocations (trace (snd (settled_edges self w es))) =
     invocations (trace w) @
     concat (map (\<lambda>v. map (\<lambda>h. (hid h, v)) (onStateChange self)) (observe self w (map snd es)))"
  using assms
proof (induction es arbitrary: self w)
  case Nil
  show ?case by simp
next
  case (Cons e es)
  obtain ch lv where e: "e = (ch, lv)" by (cases e)
  let ?w0 = "w\<lparr>pins := lv\<rparr>"
  let ?d = "fst (snd (state self ?w0))"
  let ?v = "fst (state self ?w0)"
  let ?w1 = "?w0\<lparr>trace := trace ?w0 @ Sleep SHORT_WAIT # map Input (sensor_pins self)
                 @ map (\<lambda>h. Invoke (hid h) ?v) (onStateChange self)\<rparr>"
  have ch: "ch \<in> set (sensor_pins self)" using Cons.prems(1) by (simp add: e)
  have cb: "edge_callback self ch ?w0 = (Returned, ?d, ?w1)"
    by (rule edge_callback_no_raise [OF ch Cons.prems(2)])
  have sp: "sensor_pins ?d = sensor_pins self" "onStateChange ?d = onStateChange self"
    by (simp_all add: sensor_pins_def state_door_config)
  have ih: "invocations (trace (snd (settled_edges ?d ?w1 es))) =
     invocations (trace ?w1) @
     concat (map (\<lambda>v. map (\<lambda>h. (hid h, v)) (onStateChange ?d)) (observe ?d ?w1 (map snd es)))"
    using Cons.prems by (intro Cons.IH) (simp_all add: sp)
  have ob: "observe ?d ?w1 (map snd es) = observe ?d (snd (snd (state self ?w0))) (map snd es)"
    by (rule observe_any_world)
  have step: "settled_edges self w (e # es) = settled_edges ?d ?w1 es"
    by (simp add: e cb)
  have tr: "invocations (trace ?w1) =
      invocations (trace w) @ map (\<lambda>h. (hid h, ?v)) (onStateChange self)"
    by (simp add: invocations_append invocations_map_Input invocations_map_Invoke)
  have obs: "observe self w (map snd (e # es)) =
      ?v # observe ?d (snd (snd (state self ?w0))) (map snd es)"
    by (simp add: e observe_Cons del: observe.simps(2))
  show ?case
    unfolding step ih tr obs sp ob by simp
qed

lemma filter_hid:
  "distinct (map hid hs) \<Longrightarrow> h \<in> set hs \<Longrightarrow>
   filter (\<lambda>c. fst c = hid h) (map (\<lambda>h'. (hid h', v)) hs) = [(hid h, v)]"
proof (induction hs)
  case Nil
  then show ?case by simp
next
  case (Cons a hs)
  show ?case
  proof (cases "a = h")
    case True
    have "\<forall>x \<in> set hs. hid x \<noteq> hid h"
      using Cons.prems(1) True by (auto simp: image_iff)
    then have "filter (\<lambda>c. fst c = hid h) (map (\<lambda>h'. (hid h', v)) hs) = []"
      by (simp add: filter_empty_conv)
    then show ?thesis using True by simp
  next
    case False
    then have "h \<in> set hs" using Cons.prems(2) by simp
    moreover from this have "hid a \<noteq> hid h" using Cons.prems(1) by auto
    ultimately show ?thesis using Cons by simp
  qed
qed

lemma delivered_concat:
  assumes "distinct (map hid hs)" and "h \<in> set hs"
  shows "map snd (filter (\<lambda>c. fst c = hid h)
           (concat (map (\<lambda>v. map (\<lambda>h'. (hid h', v)) hs) vs))) = vs"
  by (induction vs) (simp_all add: filter_hid [OF assms])

section \<open>Properties of the dual-sensor resolver\<close>

text \<open>
  C1. For a door with two switches, the state property resolves in first-match order:
  the closed sensor asserted gives \<open>closed\<close>; else the open sensor asserted gives
  \<open>open\<close>; else a stored state \<open>closed\<close> gives \<open>opening\<close>; else a stored state
  \<open>open\<close> gives \<open>closing\<close>; else the stored state is returned as it is (whatever it
  is, also the initial \<open>None\<close>) and the object is unchanged. In every case the stored
  state afterwards is the returned value, and no pin level changes. The resolver is a
  total function: it has no failing result.
\<close>

theorem two_switch_first_match:
  assumes "open_pin self = Some op"
    and "state self w = (s, self', w')"
  shows "(asserted self (pins w) (state_pin self) \<longrightarrow> s = Some ''closed'')
    \<and> (\<not> asserted self (pins w) (state_pin self) \<and> asserted self (pins w) op \<longrightarrow>
         s = Some ''open'')
    \<and> (\<not> asserted self (pins w) (state_pin self) \<and> \<not> asserted self (pins w) op \<and>
         state_field self = Some ''closed'' \<longrightarrow> s = Some ''opening'')
    \<and> (\<not> asserted self (pins w) (state_pin self) \<and> \<not> asserted self (pins w) op \<and>
         state_field self = Some ''open'' \<longrightarrow> s = Some ''closing'')
    \<and> (\<not> asserted self (pins w) (state_pin self) \<and> \<not> asserted self (pins w) op \<and>
         state_field self \<noteq> Some ''closed'' \<and> state_field self \<noteq> Some ''open'' \<longrightarrow>
         s = state_field self \<and> self' = self)
    \<and> self' = self\<lparr>state_field := s\<rparr>
    \<and> pins w' = pins w"
  using assms
  by (auto simp: state_def TwoSwitchGarageDoor_state_eq Let_def emit_def split: if_splits)

text \<open>
  The example door has mode 1, the closed switch on pin 17 and the open switch on pin 27.
  Freshly built (stored state \<open>None\<close>) with the closed switch asserted it is
  \<open>closed\<close>; with only the open switch asserted it is \<open>open\<close>; with no switch
  asserted it is \<open>opening\<close> after \<open>closed\<close>, \<open>closing\<close> after \<open>open\<close>, and else
  what it was, the object unchanged.
\<close>

theorem two_switch_first_match_witness:
  "fst (state dual_door (low_world\<lparr>pins := (\<lambda>ch. ch = 17)\<rparr>)) = Some ''closed''
   \<and> fst (state dual_door (low_world\<lparr>pins := (\<lambda>ch. ch = 27)\<rparr>)) = Some ''open''
   \<and> fst (state (dual_door\<lparr>state_field := Some ''closed''\<rparr>) low_world) = Some ''opening''
   \<and> fst (state (dual_door\<lparr>state_field := Some ''open''\<rparr>) low_world) = Some ''closing''
   \<and> fst (state (dual_door\<lparr>state_field := Some ''opening''\<rparr>) low_world) = Some ''opening''
   \<and> fst (state dual_door low_world) = None
   \<and> fst (snd (state dual_door low_world)) = dual_door"
proof -
  have op: "\<And>s. open_pin (dual_door\<lparr>state_field := s\<rparr>) = Some 27" "open_pin dual_door = Some 27"
    by (simp_all add: dual_door_fields)
  note c = state_triple [symmetric]
  show ?thesis
    using two_switch_first_match [OF op(2) c, of "low_world\<lparr>pins := (\<lambda>ch. ch = 17)\<rparr>"]
      two_switch_first_match [OF op(2) c, of "low_world\<lparr>pins := (\<lambda>ch. ch = 27)\<rparr>"]
      two_switch_first_match [OF op(1) c, of "Some ''closed''" low_world]
      two_switch_first_match [OF op(1) c, of "Some ''open''" low_world]
      two_switch_first_match [OF op(1) c, of "Some ''opening''" low_world]
      two_switch_first_match [OF op(2) c, of low_world]
    by (simp add: asserted_def level_int_def dual_door_fields low_world_fields)
qed

text \<open>
  C4. In every run of observations of a door with two switches, an observation with
  neither switch asserted that comes right after the state \<open>closed\<close> resolves to
  \<open>opening\<close>, and right after the state \<open>open\<close> to \<open>closing\<close>: the run never goes
  from \<open>closed\<close> to \<open>open\<close>, or back, across such an observation.
\<close>

theorem no_direct_skip:
  assumes "open_pin self = Some op"
    and "Suc i < length lvs"
    and "\<not> asserted self (lvs ! Suc i) (state_pin self)"
    and "\<not> asserted self (lvs ! Suc i) op"
  shows "(observe self w lvs ! i = Some ''closed'' \<longrightarrow> observe self w lvs ! Suc i = Some ''opening'')
    \<and> (observe self w lvs ! i = Some ''open'' \<longrightarrow> observe self w lvs ! Suc i = Some ''closing'')
    \<and> (observe self w lvs ! i = Some ''closed'' \<longrightarrow> observe self w lvs ! Suc i \<noteq> Some ''open'')
    \<and> (observe self w lvs ! i = Some ''open'' \<longrightarrow> observe self w lvs ! Suc i \<noteq> Some ''closed'')"
  using observe_step [OF assms, of w] by simp

text \<open>
  The example door through a full cycle: closed switch, no switch, open switch, no
  switch, closed switch.
\<close>

theorem no_direct_skip_witness:
  "observe dual_door low_world
     [\<lambda>ch. ch = 17, \<lambda>ch. False, \<lambda>ch. ch = 27, \<lambda>ch. False, \<lambda>ch. ch = 17] =
     [Some ''closed'', Some ''opening'', Some ''open'', Some ''closing'', Some ''closed'']"
proof -
  let ?lvs = "[\<lambda>ch. ch = 17, \<lambda>ch. False, \<lambda>ch. ch = 27, \<lambda>ch. False, \<lambda>ch. ch = (17::int)]"
  have op: "open_pin dual_door = Some 27"
    by (simp add: dual_door_fields)
  have len: "Suc 0 < length ?lvs" "Suc 2 < length ?lvs"
    by simp_all
  have quiet: "\<not> asserted dual_door (?lvs ! Suc 0) (state_pin dual_door)"
      "\<not> asserted dual_door (?lvs ! Suc 0) 27"
      "\<not> asserted dual_door (?lvs ! Suc 2) (state_pin dual_door)"
      "\<not> asserted dual_door (?lvs ! Suc 2) 27"
    by (simp_all add: asserted_def level_int_def dual_door_fields)
  show ?thesis
    using no_direct_skip [OF op len(1) quiet(1,2), of low_world]
      no_direct_skip [OF op len(2) quiet(3,4), of low_world]
    by (simp add: state_def TwoSwitchGarageDoor_state_eq asserted_def level_int_def
        dual_door_fields Let_def)
qed

section \<open>Properties of the single-sensor resolvers\<close>

text \<open>
  C3. The state of a single-sensor door and of a motion sensor is a function of the
  level of the one sensor pin and of the mode alone: the door is \<open>closed\<close> (the motion
  sensor reports \<open>nothing\<close>) when the reading equals the mode, and \<open>open\<close>
  (\<open>detection\<close>) otherwise; the call only adds the read to the trace. For an object
  built from a configuration the mode is 1 for \<open>normally_closed\<close> and 0 otherwise, and
  the result is the entry of the specification's table for that mode and pin level.
\<close>

theorem single_sensor_resolvers_table:
  "GarageDoor_state self w =
     (if level_int (pins w (state_pin self)) = mode self then ''closed'' else ''open'',
      emit (Input (state_pin self)) w)
   \<and> MotionSensor_state sen w =
     (if level_int (pins w (sensor_state_pin sen)) = sensor_mode sen
      then ''nothing'' else ''detection'',
      emit (Input (sensor_state_pin sen)) w)
   \<and> mode (fst (GarageDoor_init cfg w0)) =
       (if cfg_state_mode cfg = Some ''normally_closed'' then 1 else 0)
   \<and> sensor_mode (fst (MotionSensor_init cfg w0)) =
       (if cfg_state_mode cfg = Some ''normally_closed'' then 1 else 0)
   \<and> fst (GarageDoor_state (fst (GarageDoor_init cfg w0)) w) =
       expectedTable ''closed'' ''open'' (mode_of cfg) (pins w (cfg_state cfg))
   \<and> fst (MotionSensor_state (fst (MotionSensor_init cfg w0)) w) =
       expectedTable ''nothing'' ''detection'' (mode_of cfg) (pins w (cfg_state cfg))"
  by (simp add: GarageDoor_state_eq MotionSensor_state_eq asserted_def level_int_def
      expectedTable_def GarageDoor_init_def MotionSensor_init_def mode_of_def Let_def)

section \<open>Properties of actuation\<close>

text \<open>
  C2. With \<open>check_state_before_command\<close> set, \<open>open()\<close> does nothing but read the
  sensor pins unless the state it resolves is exactly \<open>closed\<close>, and then it reads and
  pulses the opening relay; \<open>close()\<close> likewise with \<open>open\<close> and the closing relay.
  In particular a command given while the resolved state is \<open>opening\<close> or \<open>closing\<close>
  writes no pin and logs nothing. With the flag unset, \<open>open()\<close> and \<open>close()\<close> pulse
  their relay without reading the state. (For a door with two switches the read of the
  state still stores the resolved state in the object.)
\<close>

theorem precondition_gating:
  "(check_state_before_command self \<and> fst (state self w) \<noteq> Some ''closed'' \<longrightarrow>
      snd (GarageDoor_open self w) = w\<lparr>trace := trace w @ map Input (sensor_pins self)\<rparr>
      \<and> outputs (trace (snd (GarageDoor_open self w))) = outputs (trace w))
   \<and> (check_state_before_command self \<and> fst (state self w) \<noteq> Some ''open'' \<longrightarrow>
      snd (GarageDoor_close self w) = w\<lparr>trace := trace w @ map Input (sensor_pins self)\<rparr>
      \<and> outputs (trace (snd (GarageDoor_close self w))) = outputs (trace w))
   \<and> (check_state_before_command self \<and>
        (fst (state self w) = Some ''opening'' \<or> fst (state self w) = Some ''closing'') \<longrightarrow>
      snd (GarageDoor_open self w) = w\<lparr>trace := trace w @ map Input (sensor_pins self)\<rparr>
      \<and> snd (GarageDoor_close self w) = w\<lparr>trace := trace w @ map Input (sensor_pins self)\<rparr>)
   \<and> (check_state_before_command self \<and> fst (state self w) = Some ''closed'' \<longrightarrow>
      trace (snd (GarageDoor_open self w)) =
        trace w @ map Input (sensor_pins self) @ pulse self (relay_opening_pin self))
   \<and> (check_state_before_command self \<and> fst (state self w) = Some ''open'' \<longrightarrow>
      trace (snd (GarageDoor_close self w)) =
        trace w @ map Input (sensor_pins self) @ pulse self (relay_closing_pin self))
   \<and> (\<not> check_state_before_command self \<longrightarrow>
      GarageDoor_open self w = (self, GarageDoor_press_open self w)
      \<and> trace (snd (GarageDoor_open self w)) = trace w @ pulse self (relay_opening_pin self)
      \<and> GarageDoor_close self w = (self, GarageDoor_press_close self w)
      \<and> trace (snd (GarageDoor_close self w)) = trace w @ pulse self (relay_closing_pin self))"
proof -
  have dropped: "snd (GarageDoor_open self w) = w\<lparr>trace := trace w @ map Input (sensor_pins self)\<rparr>
      \<and> outputs (trace (snd (GarageDoor_open self w))) = outputs (trace w)"
    if "check_state_before_command self" "fst (state self w) \<noteq> Some ''closed''"
    using that by (simp add: open_eq state_world outputs_append outputs_map_Input)
  have dropped': "snd (GarageDoor_close self w) = w\<lparr>trace := trace w @ map Input (sensor_pins self)\<rparr>
      \<and> outputs (trace (snd (GarageDoor_close self w))) = outputs (trace w)"
    if "check_state_before_command self" "fst (state self w) \<noteq> Some ''open''"
    using that by (simp add: close_eq state_world outputs_append outputs_map_Input)
  have pulsed: "trace (snd (GarageDoor_open self w)) =
        trace w @ map Input (sensor_pins self) @ pulse self (relay_opening_pin self)"
    if "check_state_before_command self" "fst (state self w) = Some ''closed''"
    using that by (simp add: open_eq state_world press_open_eq pulse_def state_door_config)
  have pulsed': "trace (snd (GarageDoor_close self w)) =
        trace w @ map Input (sensor_pins self) @ pulse self (relay_closing_pin self)"
    if "check_state_before_command self" "fst (state self w) = Some ''open''"
    using that by (simp add: close_eq state_world press_close_eq pulse_def state_door_config)
  have free: "GarageDoor_open self w = (self, GarageDoor_press_open self w)
      \<and> trace (snd (GarageDoor_open self w)) = trace w @ pulse self (relay_opening_pin self)
      \<and> GarageDoor_close self w = (self, GarageDoor_press_close self w)
      \<and> trace (snd (GarageDoor_close self w)) = trace w @ pulse self (relay_closing_pin self)"
    if "\<not> check_state_before_command self"
    using that by (simp add: open_eq close_eq press_open_eq press_close_eq)
  show ?thesis
    using dropped dropped' pulsed pulsed' free by auto
qed

text \<open>
  The example door with two switches in mid-travel (stored state \<open>closed\<close>, no switch
  asserted, so the state resolves to \<open>opening\<close>): \<open>open()\<close> and \<open>close()\<close> only
  read the two pins. The single-sensor door: \<open>open()\<close> pulses relay 23 when the door
  is closed, \<open>close()\<close> pulses relay 24 when it is open, and with the flag unset
  \<open>open()\<close> pulses although the door is open.
\<close>

theorem precondition_gating_witness:
  "snd (GarageDoor_open (dual_door\<lparr>state_field := Some ''closed''\<rparr>) low_world) =
     low_world\<lparr>trace := [Input 17, Input 27]\<rparr>
   \<and> snd (GarageDoor_close (dual_door\<lparr>state_field := Some ''closed''\<rparr>) low_world) =
     low_world\<lparr>trace := [Input 17, Input 27]\<rparr>
   \<and> trace (snd (GarageDoor_open single_door (low_world\<lparr>pins := (\<lambda>ch. ch = 17)\<rparr>))) =
     [Input 17, Output 23 True, Sleep 200, Output 23 False]
   \<and> trace (snd (GarageDoor_close single_door low_world)) =
     [Input 17, Output 24 True, Sleep 200, Output 24 False]
   \<and> trace (snd (GarageDoor_open (single_door\<lparr>check_state_before_command := False\<rparr>) low_world)) =
     [Output 23 True, Sleep 200, Output 23 False]"
proof -
  have a: "fst (state (dual_door\<lparr>state_field := Some ''closed''\<rparr>) low_world) = Some ''opening''"
    by (simp add: state_def TwoSwitchGarageDoor_state_eq asserted_def level_int_def
        dual_door_fields low_world_fields Let_def)
  have b: "fst (state single_door (low_world\<lparr>pins := (\<lambda>ch. ch = 17)\<rparr>)) = Some ''closed''"
    by (simp add: state_def GarageDoor_state_eq asserted_def level_int_def single_door_fields)
  have c: "fst (state single_door low_world) = Some ''open''"
    by (simp add: state_def GarageDoor_state_eq asserted_def level_int_def single_door_fields
        low_world_fields)
  show ?thesis
    using precondition_gating [of "dual_door\<lparr>state_field := Some ''closed''\<rparr>" low_world]
      precondition_gating [of single_door "low_world\<lparr>pins := (\<lambda>ch. ch = 17)\<rparr>"]
      precondition_gating [of single_door low_world]
      precondition_gating [of "single_door\<lparr>check_state_before_command := False\<rparr>" low_world]
    by (simp add: a b c sensor_pins_def pulse_def SHORT_WAIT_def dual_door_fields
        single_door_fields low_world_fields press_open_eq press_close_eq)
qed

text \<open>
  C5. A relay pulse writes the active level, the negation of \<open>invert_relay\<close>, to its
  own relay pin, sleeps for the pulse duration of 200ms, and writes the idle level
  \<open>invert_relay\<close> to the same pin; no other pin is written. The constructors leave
  every relay pin of the door at that idle level, and each of \<open>open()\<close>,
  \<open>close()\<close> and \<open>stop()\<close> that starts with all relay pins idle ends with all relay
  pins idle.
\<close>

theorem relay_pulse:
  "GarageDoor_press_open self w =
     w\<lparr>pins := (pins w)(relay_opening_pin self := invert_relay self),
       trace := trace w @ [Output (relay_opening_pin self) (\<not> invert_relay self), Sleep 200,
                           Output (relay_opening_pin self) (invert_relay self)]\<rparr>
   \<and> GarageDoor_press_close self w =
     w\<lparr>pins := (pins w)(relay_closing_pin self := invert_relay self),
       trace := trace w @ [Output (relay_closing_pin self) (\<not> invert_relay self), Sleep 200,
                           Output (relay_closing_pin self) (invert_relay self)]\<rparr>
   \<and> (relay_stop_pin self = Some p \<longrightarrow>
       GarageDoor_press_stop self w =
         w\<lparr>pins := (pins w)(p := invert_relay self),
           trace := trace w @ [Output p (\<not> invert_relay self), Sleep 200,
                               Output p (invert_relay self)]\<rparr>)
   \<and> relays_idle (fst (GarageDoor_init cfg w0)) (pins (snd (GarageDoor_init cfg w0)))
   \<and> (TwoSwitchGarageDoor_init cfg w0 = Some (d, w1) \<longrightarrow> relays_idle d (pins w1))
   \<and> (relays_idle self (pins w) \<longrightarrow>
       relays_idle self (pins (GarageDoor_press_open self w))
       \<and> relays_idle self (pins (GarageDoor_press_close self w))
       \<and> relays_idle self (pins (GarageDoor_press_stop self w))
       \<and> relays_idle self (pins (snd (GarageDoor_open self w)))
       \<and> relays_idle self (pins (snd (GarageDoor_close self w)))
       \<and> relays_idle self (pins (GarageDoor_stop self w)))"
proof -
  have idle: "relays_idle self (pins (GarageDoor_press_stop self w))"
    if "relays_idle self (pins w)"
    using that
    by (cases "relay_stop_pin self") (simp_all add: press_stop_None press_stop_Some relays_idle_upd)
  have "relays_idle self (pins (snd (GarageDoor_open self w)))" if "relays_idle self (pins w)"
    using that by (simp add: open_eq state_world press_open_eq state_door_config relays_idle_upd)
  moreover have "relays_idle self (pins (snd (GarageDoor_close self w)))"
    if "relays_idle self (pins w)"
    using that by (simp add: close_eq state_world press_close_eq state_door_config relays_idle_upd)
  ultimately show ?thesis
    using idle
    by (simp add: press_open_eq press_close_eq press_stop_Some pulse_def SHORT_WAIT_def
        init_relays_idle two_switch_init_relays_idle relays_idle_upd GarageDoor_stop_def)
qed

text \<open>
  The example door (relays on pins 23, 24 and 25, not inverted) in a world with every
  pin low: the stop pulse raises pin 25, sleeps and lowers it again, and the relays are
  idle before and after a \<open>close()\<close> and after the construction.
\<close>

theorem relay_pulse_witness:
  "GarageDoor_press_stop single_door low_world =
     low_world\<lparr>pins := (pins low_world)(25 := False),
                trace := trace low_world @ [Output 25 True, Sleep 200, Output 25 False]\<rparr>
   \<and> relays_idle single_door (pins low_world)
   \<and> relays_idle single_door (pins (snd (GarageDoor_close single_door low_world)))
   \<and> relays_idle dual_door (pins (snd (the (TwoSwitchGarageDoor_init example_config low_world))))"
proof -
  have stop: "relay_stop_pin single_door = Some 25"
    by (simp add: single_door_fields)
  have idle: "relays_idle single_door (pins low_world)"
    by (simp add: relays_idle_def relay_pins_def single_door_fields low_world_fields)
  have init: "TwoSwitchGarageDoor_init example_config low_world =
      Some (dual_door, snd (the (TwoSwitchGarageDoor_init example_config low_world)))"
    by (simp add: dual_door_def TwoSwitchGarageDoor_init_def example_config_def split_def Let_def)
  show ?thesis
    using relay_pulse [of single_door low_world 25 example_config low_world dual_door
        "snd (the (TwoSwitchGarageDoor_init example_config low_world))"] stop idle init
    by (simp add: single_door_fields)
qed

text \<open>
  C6. For a door with no stop relay, \<open>stop()\<close> only logs \<open>STOP not setup\<close>: it
  writes no pin, no pin level changes, and it returns (the function has no failing
  result). The same holds when the dispatcher executes \<open>STOP\<close>, and the door object is
  unchanged.
\<close>

theorem stop_unconfigured:
  assumes "relay_stop_pin self = None"
  shows "GarageDoor_stop self w = w\<lparr>trace := trace w @ [LogInfo ''STOP not setup'']\<rparr>
    \<and> pins (GarageDoor_stop self w) = pins w
    \<and> outputs (trace (GarageDoor_stop self w)) = outputs (trace w)
    \<and> fst (execute_command self ''STOP'' w) = self
    \<and> pins (snd (execute_command self ''STOP'' w)) = pins w
    \<and> outputs (trace (snd (execute_command self ''STOP'' w))) = outputs (trace w)"
  using assms
  by (simp add: GarageDoor_stop_def press_stop_None outputs_append execute_command_def
      logging_info_def emit_def Let_def)

theorem stop_unconfigured_witness:
  "GarageDoor_stop (single_door\<lparr>relay_stop_pin := None\<rparr>) low_world =
     low_world\<lparr>trace := trace low_world @ [LogInfo ''STOP not setup'']\<rparr>
   \<and> outputs (trace (snd (execute_command (single_door\<lparr>relay_stop_pin := None\<rparr>)
        ''STOP'' low_world))) = []"
proof -
  have none: "relay_stop_pin (single_door\<lparr>relay_stop_pin := None\<rparr>) = None"
    by simp
  show ?thesis
    using stop_unconfigured [OF none, of low_world]
    by (simp add: low_world_fields)
qed

text \<open>
  C10. For a door with a stop relay, \<open>stop()\<close> pulses that relay whatever the
  precondition flag, the stored state and the pin levels are, and it reads no pin. The
  same holds when the dispatcher executes \<open>STOP\<close>, which leaves the door object (and
  so its stored state) as it was.
\<close>

theorem stop_not_gated:
  assumes "relay_stop_pin self = Some p"
  shows "GarageDoor_stop self w =
       w\<lparr>pins := (pins w)(p := invert_relay self), trace := trace w @ pulse self p\<rparr>
    \<and> GarageDoor_stop (self\<lparr>check_state_before_command := b, state_field := s\<rparr>)
         (w\<lparr>pins := lv\<rparr>) =
       w\<lparr>pins := lv(p := invert_relay self), trace := trace w @ pulse self p\<rparr>
    \<and> inputs (trace (GarageDoor_stop self w)) = inputs (trace w)
    \<and> fst (execute_command self ''STOP'' w) = self
    \<and> outputs (trace (snd (execute_command self ''STOP'' w))) =
        outputs (trace w) @ [(p, \<not> invert_relay self), (p, invert_relay self)]
    \<and> inputs (trace (snd (execute_command self ''STOP'' w))) = inputs (trace w)"
  using assms
  by (simp add: GarageDoor_stop_def press_stop_Some outputs_append inputs_append
      execute_command_def logging_info_def emit_def Let_def pulse_def)

text \<open>The example door in mid-travel, with the precondition flag set: the stop relay pulses.\<close>

theorem stop_not_gated_witness:
  "GarageDoor_stop (dual_door\<lparr>state_field := Some ''opening''\<rparr>) low_world =
     low_world\<lparr>pins := (pins low_world)(25 := False),
                trace := trace low_world @ [Output 25 True, Sleep 200, Output 25 False]\<rparr>
   \<and> inputs (trace (GarageDoor_stop (dual_door\<lparr>state_field := Some ''opening''\<rparr>) low_world)) = []
   \<and> check_state_before_command (dual_door\<lparr>state_field := Some ''opening''\<rparr>)"
proof -
  have stop: "relay_stop_pin (dual_door\<lparr>state_field := Some ''opening''\<rparr>) = Some 25"
    by (simp add: dual_door_fields)
  show ?thesis
    using stop_not_gated [OF stop, of low_world]
    by (simp add: pulse_def SHORT_WAIT_def dual_door_fields low_world_fields)
qed

section \<open>Properties of the command dispatcher\<close>

text \<open>
  C9. A command other than \<open>OPEN\<close>, \<open>CLOSE\<close> and \<open>STOP\<close> is logged and ignored:
  \<open>execute_command\<close> returns the door object as it was and a world in which only two
  log lines were added, the second being \<open>Invalid command\<close> with the command. No pin
  is written or read, no pin level changes, and the function has no failing result.
\<close>

theorem invalid_command_ignored:
  assumes "command \<noteq> ''OPEN''" and "command \<noteq> ''CLOSE''" and "command \<noteq> ''STOP''"
  shows "execute_command door command w =
      (door, w\<lparr>trace := trace w @
         [LogInfo (''Executing command '' @ command @ '' for door '' @
                   (case name_attr door of Some n \<Rightarrow> n | None \<Rightarrow> ident door)),
          LogInfo (''Invalid command: '' @ command)]\<rparr>)
    \<and> pins (snd (execute_command door command w)) = pins w
    \<and> outputs (trace (snd (execute_command door command w))) = outputs (trace w)
    \<and> inputs (trace (snd (execute_command door command w))) = inputs (trace w)"
  using assms
  by (simp add: execute_command_def logging_info_def emit_def Let_def outputs_append inputs_append)

text \<open>The command \<open>open\<close> in lower case is not a command.\<close>

theorem invalid_command_ignored_witness:
  "execute_command single_door ''open'' low_world =
     (single_door,
      low_world\<lparr>trace := trace low_world @
         [LogInfo ''Executing command open for door garage'',
          LogInfo ''Invalid command: open'']\<rparr>)"
proof -
  have ne: "''open'' \<noteq> ''OPEN''" "''open'' \<noteq> ''CLOSE''" "''open'' \<noteq> ''STOP''"
    by simp_all
  show ?thesis
    using invalid_command_ignored [OF ne, of single_door low_world]
    by (simp add: single_door_fields)
qed

section \<open>Properties of change notification\<close>

text \<open>
  C7. Over a run of settled edges on the watched pins of a door whose handlers return,
  the calls of handlers are, for each edge in turn, one call of every registered handler
  in the order of registration, with the state resolved at that edge. Nothing is
  compared with an earlier state: a handler (identified by its \<open>hid\<close> among distinct
  ones) receives exactly the list of the resolved states, one for each edge, so it is
  called as many times as there are edges.
\<close>

theorem every_edge_notifies:
  assumes "\<forall>e \<in> set es. fst e \<in> set (sensor_pins self)"
    and "\<forall>h \<in> set (onStateChange self). \<forall>v. \<not> raises h v"
  shows "invocations (trace (snd (settled_edges self w es))) =
       invocations (trace w) @
       concat (map (\<lambda>v. map (\<lambda>h. (hid h, v)) (onStateChange self)) (observe self w (map snd es)))
    \<and> length (observe self w (map snd es)) = length es
    \<and> (distinct (map hid (onStateChange self)) \<and> h \<in> set (onStateChange self) \<longrightarrow>
         delivered (hid h) (trace (snd (settled_edges self w es))) =
           delivered (hid h) (trace w) @ observe self w (map snd es)
         \<and> length (delivered (hid h) (trace (snd (settled_edges self w es)))) =
           length (delivered (hid h) (trace w)) + length es)"
  by (simp add: settled_edges_invocations [OF assms] length_observe delivered_def delivered_concat)

text \<open>
  The example door with two handlers and three edges, the first two of which resolve to
  the same state \<open>closed\<close>: six calls, and the second handler is called three times.
\<close>

theorem every_edge_notifies_witness:
  "invocations (trace (snd (settled_edges notified_door low_world
      [(17, \<lambda>ch. ch = 17), (17, \<lambda>ch. ch = 17), (27, \<lambda>ch. ch = 27)]))) =
     [(0, Some ''closed''), (1, Some ''closed''), (0, Some ''closed''), (1, Some ''closed''),
      (0, Some ''open''), (1, Some ''open'')]
   \<and> delivered 1 (trace (snd (settled_edges notified_door low_world
      [(17, \<lambda>ch. ch = 17), (17, \<lambda>ch. ch = 17), (27, \<lambda>ch. ch = 27)]))) =
     [Some ''closed'', Some ''closed'', Some ''open'']"
proof -
  let ?es = "[(17, \<lambda>ch. ch = 17), (17, \<lambda>ch. ch = 17), (27, \<lambda>ch. ch = (27::int))]"
  have watched: "\<forall>e \<in> set ?es. fst e \<in> set (sensor_pins notified_door)"
    by (simp add: sensor_pins_def notified_door_fields)
  have quiet: "\<forall>h \<in> set (onStateChange notified_door). \<forall>v. \<not> raises h v"
    by (simp add: notified_door_fields example_handler_def)
  have obs: "observe notified_door low_world (map snd ?es) =
      [Some ''closed'', Some ''closed'', Some ''open'']"
    by (simp add: state_def TwoSwitchGarageDoor_state_eq asserted_def level_int_def
        notified_door_fields Let_def)
  have none: "\<And>i. delivered i [] = []"
    by (simp add: delivered_def)
  show ?thesis
    using every_edge_notifies [OF watched quiet, where h = "example_handler 1" and w = low_world]
    unfolding obs notified_door_fields low_world_fields
    by (simp add: example_handler_def none del: observe.simps settled_edges.simps)
qed

end
